theory Spec2Isabelle
  imports Main "HOL-Library.Word"
begin

section \<open>JavaScript values used by the task store\<close>

subsection \<open>Strings\<close>

text \<open>
  A string is the sequence of its UTF-16 code units. \<open>str\<close> gives the string of a
  literal of ASCII characters.
\<close>

type_synonym code_unit = "16 word"

type_synonym jsstring = "code_unit list"

definition str :: "string \<Rightarrow> jsstring" where
  "str s = map (\<lambda>c. of_nat (of_char c)) s"

text \<open>
  \<^verbatim>\<open>trim\<close> strips white space and line terminators at both ends: TAB, LF, VT, FF, CR,
  SPACE, NBSP, U+1680, U+2000 .. U+200A, U+2028, U+2029, U+202F, U+205F, U+3000 and
  U+FEFF. Each of them is one code unit.
\<close>

definition isWhiteSpace :: "code_unit \<Rightarrow> bool" where
  "isWhiteSpace c =
     (c \<in> {0x9, 0xA, 0xB, 0xC, 0xD, 0x20, 0xA0, 0x1680, 0x2028, 0x2029, 0x202F, 0x205F,
           0x3000, 0xFEFF} \<or> (0x2000 \<le> c \<and> c \<le> 0x200A))"

definition trim :: "jsstring \<Rightarrow> jsstring" where
  "trim s = rev (dropWhile isWhiteSpace (rev (dropWhile isWhiteSpace s)))"

text \<open>A string used as a condition is true exactly when it is not empty.\<close>

definition truthy :: "jsstring \<Rightarrow> bool" where
  "truthy s = (s \<noteq> [])"

fun startsWith :: "jsstring \<Rightarrow> jsstring \<Rightarrow> bool" where
  "startsWith s [] = True"
| "startsWith [] (c # q) = False"
| "startsWith (a # s) (c # q) = (a = c \<and> startsWith s q)"

text \<open>
  \<^verbatim>\<open>s.includes(q)\<close>: the code units of \<open>q\<close> occur in \<open>s\<close>, one after the other, at some
  position.
\<close>

fun includes_string :: "jsstring \<Rightarrow> jsstring \<Rightarrow> bool" where
  "includes_string [] q = (q = [])"
| "includes_string (a # s) q = (startsWith (a # s) q \<or> includes_string s q)"

subsection \<open>Dates, priorities, tasks\<close>

text \<open>
  A \<^verbatim>\<open>Date\<close> is its time value, the milliseconds since the epoch. Every date the
  application creates comes from \<^verbatim>\<open>new Date()\<close> or from the date picker, so it is a
  valid date. \<^verbatim>\<open>Date.now()\<close> is the same number without the object.
\<close>

type_synonym date = int

datatype priority = Low | Medium | High

text \<open>
  The object built by \<^verbatim>\<open>addTask\<close>. The fields \<^verbatim>\<open>id\<close> and \<^verbatim>\<open>text\<close> are called
  \<open>task_id\<close> and \<open>task_text\<close> here; \<^verbatim>\<open>dueDate: null\<close> is \<open>None\<close>.
\<close>

record task =
  task_id :: int
  task_text :: jsstring
  completed :: bool
  createdAt :: date
  priority :: priority
  dueDate :: "date option"

datatype status_filter = FilterAll | FilterActive | FilterCompleted

subsection \<open>The persistence backend\<close>

text \<open>
  \<^verbatim>\<open>AsyncStorage\<close> is a key-value store of strings. Each of its calls may reject; the
  callers catch the rejection and log it. \<open>available\<close> says whether the backend
  performs the calls it receives.
\<close>

datatype error = StorageError | SyntaxError | UndefinedElement

record backend =
  items :: "jsstring \<Rightarrow> jsstring option"
  available :: bool

definition getItem :: "jsstring \<Rightarrow> backend \<Rightarrow> error + jsstring option" where
  "getItem k b = (if available b then Inr (items b k) else Inl StorageError)"

definition setItem :: "jsstring \<Rightarrow> jsstring \<Rightarrow> backend \<Rightarrow> error + backend" where
  "setItem k v b =
     (if available b then Inr (b\<lparr>items := (items b)(k \<mapsto> v)\<rparr>) else Inl StorageError)"


subsection \<open>The persisted form of a task list\<close>

text \<open>
  \<^verbatim>\<open>JSON.stringify(tasks)\<close> writes an array of records in which each \<^verbatim>\<open>Date\<close> has been
  replaced by the string \<^verbatim>\<open>toISOString\<close> gives (that is what \<^verbatim>\<open>Date.prototype.toJSON\<close>
  does) and \<^verbatim>\<open>null\<close> stays \<^verbatim>\<open>null\<close>. \<open>stored_task\<close> is one such record, as
  \<^verbatim>\<open>JSON.parse\<close> gives it back.
\<close>

record stored_task =
  stored_id :: int
  stored_text :: jsstring
  stored_completed :: bool
  stored_createdAt :: jsstring
  stored_priority :: priority
  stored_dueDate :: "jsstring option"

text \<open>
  The functions of the JavaScript runtime that the application calls and that are more
  than a walk over code units. They are not code of the application, so the
  application's functions take them as a parameter:
  \<^item> \<open>JSON_stringify\<close> renders an array of stored records as text;
  \<^item> \<open>JSON_parse\<close> reads such a text back, \<open>None\<close> when it throws;
  \<^item> \<open>toISOString\<close> renders a date as a string;
  \<^item> \<open>Date_parse\<close> is \<^verbatim>\<open>new Date(s)\<close> for a string \<open>s\<close>;
  \<^item> \<open>toLowerCase\<close> is \<^verbatim>\<open>String.prototype.toLowerCase\<close>, the lower-casing of the
    Unicode standard. It is not a map over the code units: what a letter becomes can
    depend on its neighbours (a capital sigma at the end of a word becomes the final
    sigma), and the result can be longer than the string.
\<close>

record runtime =
  JSON_stringify :: "stored_task list \<Rightarrow> jsstring"
  JSON_parse :: "jsstring \<Rightarrow> stored_task list option"
  toISOString :: "date \<Rightarrow> jsstring"
  Date_parse :: "jsstring \<Rightarrow> date"
  toLowerCase :: "jsstring \<Rightarrow> jsstring"

definition toJSON :: "runtime \<Rightarrow> task \<Rightarrow> stored_task" where
  "toJSON rt t =
     \<lparr>stored_id = task_id t, stored_text = task_text t, stored_completed = completed t,
      stored_createdAt = toISOString rt (createdAt t), stored_priority = priority t,
      stored_dueDate = map_option (toISOString rt) (dueDate t)\<rparr>"

text \<open>The callback of \<^verbatim>\<open>parsedTasks.map\<close> in \<^verbatim>\<open>loadData\<close>.\<close>

definition withDates :: "runtime \<Rightarrow> stored_task \<Rightarrow> task" where
  "withDates rt p =
     \<lparr>task_id = stored_id p, task_text = stored_text p, completed = stored_completed p,
      createdAt = Date_parse rt (stored_createdAt p), priority = stored_priority p,
      dueDate = (case stored_dueDate p of
                   None \<Rightarrow> None
                 | Some s \<Rightarrow> if truthy s then Some (Date_parse rt s) else None)\<rparr>"

section \<open>The state of the application\<close>

text \<open>
  The state variables of \<^verbatim>\<open>MainApp\<close> (the state variable \<^verbatim>\<open>priority\<close> of the input row
  is \<open>priority_input\<close>, to keep it apart from the field of a task), together with what
  the component acts on outside itself: the backend, the console to which caught errors
  are written, and the number of timers started to end a celebration.
\<close>

record app =
  tasks :: "task list"
  newTask :: jsstring
  modalVisible :: bool
  taskToDelete :: "int option"
  activeFilter :: status_filter
  searchQuery :: jsstring
  isDarkMode :: bool
  showDatePicker :: bool
  selectedDate :: date
  priority_input :: priority
  showConfetti :: bool
  isLoading :: bool
  storage :: backend
  console :: "error list"
  confettiTimeouts :: nat

text \<open>The state at mount: the initial values of the state variables, \<open>now\<close> the clock.\<close>

definition mount :: "date \<Rightarrow> backend \<Rightarrow> app" where
  "mount now b =
     \<lparr>tasks = [], newTask = [], modalVisible = False, taskToDelete = None,
      activeFilter = FilterAll, searchQuery = [], isDarkMode = True,
      showDatePicker = False, selectedDate = now, priority_input = Medium,
      showConfetti = False, isLoading = True, storage = b, console = [],
      confettiTimeouts = 0\<rparr>"

section \<open>Loading and saving\<close>

definition loadData :: "runtime \<Rightarrow> app \<Rightarrow> app" where
  "loadData rt st =
     (let finally = (\<lambda>s. s\<lparr>isLoading := False\<rparr>);
          catch = (\<lambda>e. finally (st\<lparr>console := console st @ [e]\<rparr>))
      in case getItem (str ''@tasks'') (storage st) of
           Inl e \<Rightarrow> catch e
         | Inr savedTasks \<Rightarrow>
            (case getItem (str ''@theme'') (storage st) of
               Inl e \<Rightarrow> catch e
             | Inr savedTheme \<Rightarrow>
                (let themed = (\<lambda>s. case savedTheme of
                                     None \<Rightarrow> s
                                   | Some th \<Rightarrow> if truthy th
                                              then s\<lparr>isDarkMode := (th = str ''dark'')\<rparr> else s)
                 in case savedTasks of
                      None \<Rightarrow> finally (themed st)
                    | Some saved \<Rightarrow>
                       if truthy saved
                       then (case JSON_parse rt saved of
                               None \<Rightarrow> catch SyntaxError
                             | Some parsedTasks \<Rightarrow>
                                finally (themed (st\<lparr>tasks := map (withDates rt) parsedTasks\<rparr>)))
                       else finally (themed st))))"

text \<open>The effect that runs after \<^verbatim>\<open>tasks\<close> or \<^verbatim>\<open>isLoading\<close> has changed.\<close>

definition saveTasks :: "runtime \<Rightarrow> app \<Rightarrow> app" where
  "saveTasks rt st =
     (if \<not> isLoading st
      then (case setItem (str ''@tasks'') (JSON_stringify rt (map (toJSON rt) (tasks st)))
                   (storage st) of
              Inl e \<Rightarrow> st\<lparr>console := console st @ [e]\<rparr>
            | Inr b \<Rightarrow> st\<lparr>storage := b\<rparr>)
      else st)"

definition saveTheme :: "app \<Rightarrow> app" where
  "saveTheme st =
     (if \<not> isLoading st
      then (case setItem (str ''@theme'') (str (if isDarkMode st then ''dark'' else ''light''))
                   (storage st) of
              Inl e \<Rightarrow> st\<lparr>console := console st @ [e]\<rparr>
            | Inr b \<Rightarrow> st\<lparr>storage := b\<rparr>)
      else st)"

text \<open>Closing the application and opening it again: a fresh mount on the same backend.\<close>

definition restart :: "date \<Rightarrow> app \<Rightarrow> app" where
  "restart now st = mount now (storage st)"

section \<open>The derived view\<close>

definition filteredTasks :: "runtime \<Rightarrow> app \<Rightarrow> task list" where
  "filteredTasks rt st =
     filter (\<lambda>t.
        if activeFilter st = FilterActive then \<not> completed t
        else if activeFilter st = FilterCompleted then completed t
        else if truthy (searchQuery st)
             then includes_string (toLowerCase rt (task_text t)) (toLowerCase rt (searchQuery st))
        else True) (tasks st)"

section \<open>The operations\<close>

text \<open>
  \<^verbatim>\<open>addTask\<close> reads the clock four times: \<^verbatim>\<open>Date.now()\<close> for the id, \<^verbatim>\<open>new Date()\<close>
  for \<^verbatim>\<open>createdAt\<close>, \<^verbatim>\<open>new Date()\<close> in the comparison with the selected date, and
  \<^verbatim>\<open>new Date()\<close> to reset the selected date.
\<close>

record add_clock =
  now_id :: int
  now_created :: date
  now_due :: date
  now_reset :: date

definition addTask :: "add_clock \<Rightarrow> app \<Rightarrow> app" where
  "addTask c st =
     (if truthy (trim (newTask st))
      then (let newTaskObj =
                  \<lparr>task_id = now_id c, task_text = newTask st, completed = False,
                   createdAt = now_created c, priority = priority_input st,
                   dueDate = (if selectedDate st > now_due c
                              then Some (selectedDate st) else None)\<rparr>
            in st\<lparr>tasks := newTaskObj # tasks st, newTask := [],
                  priority_input := Medium, selectedDate := now_reset c\<rparr>)
      else st)"

text \<open>
  A celebration is \<^verbatim>\<open>setShowConfetti(true)\<close> together with the timer that ends it; the
  timer is counted in \<open>confettiTimeouts\<close>.
\<close>

definition toggleTask :: "int \<Rightarrow> app \<Rightarrow> app" where
  "toggleTask taskId st =
     (let updatedTasks =
            map (\<lambda>t. if task_id t = taskId then t\<lparr>completed := \<not> completed t\<rparr> else t)
                (tasks st);
          st' = st\<lparr>tasks := updatedTasks\<rparr>
      in if list_all completed updatedTasks
         then st'\<lparr>showConfetti := True, confettiTimeouts := Suc (confettiTimeouts st')\<rparr>
         else st')"

definition confettiTimeout :: "app \<Rightarrow> app" where
  "confettiTimeout st = st\<lparr>showConfetti := False, confettiTimeouts := confettiTimeouts st - 1\<rparr>"

definition editTask :: "int \<Rightarrow> jsstring \<Rightarrow> app \<Rightarrow> app" where
  "editTask taskId newText st =
     st\<lparr>tasks := map (\<lambda>t. if task_id t = taskId then t\<lparr>task_text := newText\<rparr> else t)
                      (tasks st)\<rparr>"

definition prepareDelete :: "int \<Rightarrow> app \<Rightarrow> app" where
  "prepareDelete taskId st = st\<lparr>taskToDelete := Some taskId, modalVisible := True\<rparr>"

definition confirmDelete :: "app \<Rightarrow> app" where
  "confirmDelete st =
     st\<lparr>tasks := filter (\<lambda>t. Some (task_id t) \<noteq> taskToDelete st) (tasks st),
        modalVisible := False, taskToDelete := None\<rparr>"

definition clearCompleted :: "app \<Rightarrow> app" where
  "clearCompleted st = st\<lparr>tasks := filter (\<lambda>t. \<not> completed t) (tasks st)\<rparr>"

definition handleDateChange :: "date option \<Rightarrow> app \<Rightarrow> app" where
  "handleDateChange d st =
     (case d of
        None \<Rightarrow> st\<lparr>showDatePicker := False\<rparr>
      | Some v \<Rightarrow> st\<lparr>showDatePicker := False, selectedDate := v\<rparr>)"

definition updateTaskPriority :: "int \<Rightarrow> priority \<Rightarrow> app \<Rightarrow> app" where
  "updateTaskPriority taskId newPriority st =
     st\<lparr>tasks := map (\<lambda>t. if task_id t = taskId then t\<lparr>priority := newPriority\<rparr> else t)
                      (tasks st)\<rparr>"

definition updateTaskDueDate :: "int \<Rightarrow> date \<Rightarrow> app \<Rightarrow> app" where
  "updateTaskDueDate taskId newDate st =
     st\<lparr>tasks := map (\<lambda>t. if task_id t = taskId then t\<lparr>dueDate := Some newDate\<rparr> else t)
                      (tasks st)\<rparr>"

subsection \<open>Reordering\<close>

text \<open>
  \<^verbatim>\<open>Array.prototype.splice(start, deleteCount, ...new)\<close>: a negative \<open>start\<close> counts
  from the end, and both numbers are clamped to the array. The result is the pair of the
  removed elements and the array afterwards.
\<close>

definition splice :: "int \<Rightarrow> int \<Rightarrow> 'a list \<Rightarrow> 'a list \<Rightarrow> 'a list \<times> 'a list" where
  "splice start deleteCount new xs =
     (let len = length xs;
          k = (if start < 0 then nat (max (int len + start) 0) else min (nat start) len);
          dc = min (nat (max deleteCount 0)) (len - k)
      in (take dc (drop k xs), take k xs @ new @ drop (k + dc) xs))"

text \<open>
  When the first \<^verbatim>\<open>splice\<close> removes nothing, \<^verbatim>\<open>removed\<close> is \<^verbatim>\<open>undefined\<close> and the
  second one inserts it: the array then holds an element that is not a task. A list of
  tasks cannot hold it, and the model returns \<open>UndefinedElement\<close> in its place.
\<close>

definition reorderTasks :: "int \<Rightarrow> int \<Rightarrow> app \<Rightarrow> error + app" where
  "reorderTasks fromIndex toIndex st =
     (case splice fromIndex 1 [] (tasks st) of
        ([], newTasks) \<Rightarrow> Inl UndefinedElement
      | (removed # _, newTasks) \<Rightarrow>
          Inr (st\<lparr>tasks := snd (splice toIndex 0 [removed] newTasks)\<rparr>))"


subsection \<open>The editor of one task\<close>

text \<open>
  The state of a \<^verbatim>\<open>TaskItem\<close> that \<^verbatim>\<open>saveEdit\<close> reads and writes, and \<^verbatim>\<open>saveEdit\<close>
  itself; \<open>onEdit\<close> is the callback the item was given, \<open>None\<close> when it was given none.
\<close>

record task_item =
  isEditing :: bool
  editedText :: jsstring

definition saveEdit ::
  "(jsstring \<Rightarrow> app \<Rightarrow> app) option \<Rightarrow> task_item \<times> app \<Rightarrow> task_item \<times> app" where
  "saveEdit onEdit x =
     (case x of (item, st) \<Rightarrow>
        if truthy (trim (editedText item))
        then (case onEdit of
                None \<Rightarrow> (item, st)
              | Some f \<Rightarrow> (item\<lparr>isEditing := False\<rparr>, f (editedText item) st))
        else (item, st))"

section \<open>The operations as the user performs them\<close>

text \<open>
  Adding: the user types the text, picks a priority and a date, and submits.
  Removing: the user asks to delete a task and confirms.
  Editing: the user types a new text in the item of the task and submits; the item was
  given \<^verbatim>\<open>(newText) => editTask(task.id, newText)\<close> as its callback.
\<close>

definition add :: "jsstring \<Rightarrow> priority \<Rightarrow> date \<Rightarrow> add_clock \<Rightarrow> app \<Rightarrow> app" where
  "add inputText p d c st = addTask c (st\<lparr>newTask := inputText, priority_input := p, selectedDate := d\<rparr>)"

definition remove :: "int \<Rightarrow> app \<Rightarrow> app" where
  "remove taskId st = confirmDelete (prepareDelete taskId st)"

definition edit :: "int \<Rightarrow> jsstring \<Rightarrow> app \<Rightarrow> app" where
  "edit taskId newText st =
     snd (saveEdit (Some (editTask taskId)) (\<lparr>isEditing = True, editedText = newText\<rparr>, st))"

datatype op = Add jsstring priority date add_clock | Remove int

fun step :: "app \<Rightarrow> op \<Rightarrow> app" where
  "step st (Add inputText p d c) = add inputText p d c st"
| "step st (Remove taskId) = remove taskId st"

definition run :: "op list \<Rightarrow> app \<Rightarrow> app" where
  "run ops st = foldl step st ops"

section \<open>Notions used in the statements\<close>

text \<open>The ids of a store, in the order of its tasks.\<close>

definition ids :: "app \<Rightarrow> int list" where
  "ids st = map task_id (tasks st)"

text \<open>
  The readings of \<^verbatim>\<open>Date.now()\<close> that an operation takes: an add whose text is accepted
  takes one, for the id; a rejected add and a remove take none.
\<close>

fun ids_read :: "op \<Rightarrow> int list" where
  "ids_read (Add inputText p d c) = (if truthy (trim inputText) then [now_id c] else [])"
| "ids_read (Remove taskId) = []"

text \<open>Every task of the store is completed.\<close>

definition allCompleted :: "app \<Rightarrow> bool" where
  "allCompleted st = list_all completed (tasks st)"

text \<open>Between the two states one celebration was started.\<close>

definition celebrated :: "app \<Rightarrow> app \<Rightarrow> bool" where
  "celebrated st st' = (confettiTimeouts st' = Suc (confettiTimeouts st))"

text \<open>\<open>q\<close> is a substring of \<open>s\<close>: at some position of \<open>s\<close> the next characters are \<open>q\<close>.\<close>

definition contains :: "jsstring \<Rightarrow> jsstring \<Rightarrow> bool" where
  "contains s q =
     (\<exists>i \<in> {0 .. length s}. i + length q \<le> length s \<and> take (length q) (drop i s) = q)"

text \<open>
  \<open>q\<close> is a substring of \<open>s\<close> when letter case is ignored, \<open>f\<close> giving the lower-case form
  of a character: at some position of \<open>s\<close> the next \<open>length q\<close> characters are those of
  \<open>q\<close>, up to the case of the letters.
\<close>

definition contains_ignoring_case :: "(code_unit \<Rightarrow> code_unit) \<Rightarrow> jsstring \<Rightarrow> jsstring \<Rightarrow> bool" where
  "contains_ignoring_case f s q =
     (\<exists>i \<in> {0 .. length s}. i + length q \<le> length s \<and>
        map f (take (length q) (drop i s)) = map f q)"

text \<open>Removing the element at a position of a list, and inserting an element at one.\<close>

fun remove_at :: "nat \<Rightarrow> 'a list \<Rightarrow> 'a list" where
  "remove_at n [] = []"
| "remove_at 0 (x # xs) = xs"
| "remove_at (Suc n) (x # xs) = x # remove_at n xs"

fun insert_at :: "nat \<Rightarrow> 'a \<Rightarrow> 'a list \<Rightarrow> 'a list" where
  "insert_at 0 y xs = y # xs"
| "insert_at (Suc n) y [] = [y]"
| "insert_at (Suc n) y (x # xs) = x # insert_at n y xs"

text \<open>
  \<open>us\<close> is \<open>ts\<close> with \<open>upd\<close> applied to the tasks whose id is \<open>i\<close>: the same length, the
  same ids at the same positions, every other task as it was.
\<close>

definition updated_only :: "int \<Rightarrow> (task \<Rightarrow> task) \<Rightarrow> task list \<Rightarrow> task list \<Rightarrow> bool" where
  "updated_only i upd ts us =
     (length us = length ts \<and> map task_id us = map task_id ts \<and>
      (\<forall>k < length ts. us ! k = (if task_id (ts ! k) = i then upd (ts ! k) else ts ! k)))"

text \<open>
  What the persistence code needs of the runtime for the dates of one task: a date that
  is rendered and read again is the same date, and a rendered date is not the empty
  string.
\<close>

definition datesRoundTrip :: "runtime \<Rightarrow> task \<Rightarrow> bool" where
  "datesRoundTrip rt t =
     (Date_parse rt (toISOString rt (createdAt t)) = createdAt t \<and>
      (case dueDate t of
         None \<Rightarrow> True
       | Some d \<Rightarrow> toISOString rt d \<noteq> [] \<and> Date_parse rt (toISOString rt d) = d))"

section \<open>Sample data\<close>

definition emptyBackend :: backend where
  "emptyBackend = \<lparr>items = Map.empty, available = True\<rparr>"

text \<open>A moment at which the four clock readings of \<^verbatim>\<open>addTask\<close> agree.\<close>

definition clockAt :: "int \<Rightarrow> add_clock" where
  "clockAt t = \<lparr>now_id = t, now_created = t, now_due = t, now_reset = t\<rparr>"

definition plainTask :: "int \<Rightarrow> jsstring \<Rightarrow> bool \<Rightarrow> task" where
  "plainTask i s c =
     \<lparr>task_id = i, task_text = s, completed = c, createdAt = 0, priority = Medium,
      dueDate = None\<rparr>"

text \<open>A loaded store that holds the given tasks.\<close>

definition storeOf :: "task list \<Rightarrow> app" where
  "storeOf ts = (mount 0 emptyBackend)\<lparr>tasks := ts, isLoading := False\<rparr>"


text \<open>
  Two tasks, one without a due date, the records and the text \<^verbatim>\<open>JSON.stringify\<close> writes
  for them; what \<^verbatim>\<open>toLowerCase\<close> does to a code unit of U+0000 .. U+00FF; a Greek word
  in capitals (omicron, delta, omicron, sigma) with its lower-case form, which ends in the
  final sigma U+03C2, and the capital sigma alone with its lower-case form U+03C3; and a
  runtime given by its values on them: 1000 and 86400000 milliseconds after the epoch with
  their ISO strings, the text above and the text of the empty array, and \<^verbatim>\<open>toLowerCase\<close>
  on the two Greek strings and on the strings of U+0000 .. U+00FF, which it lower-cases
  code unit by code unit.
\<close>

definition lowerLatin1 :: "code_unit \<Rightarrow> code_unit" where
  "lowerLatin1 c =
     (if (0x41 \<le> c \<and> c \<le> 0x5A) \<or> (0xC0 \<le> c \<and> c \<le> 0xDE \<and> c \<noteq> 0xD7)
      then c + 0x20 else c)"

definition odos :: jsstring where
  "odos = [0x39F, 0x394, 0x39F, 0x3A3]"

definition odosLower :: jsstring where
  "odosLower = [0x3BF, 0x3B4, 0x3BF, 0x3C2]"

definition sigma :: jsstring where
  "sigma = [0x3A3]"

definition sigmaLower :: jsstring where
  "sigmaLower = [0x3C3]"

definition sampleTasks :: "task list" where
  "sampleTasks =
     [\<lparr>task_id = 1001, task_text = str ''b'', completed = True, createdAt = 1000,
       priority = Low, dueDate = None\<rparr>,
      \<lparr>task_id = 1000, task_text = str ''a'', completed = False, createdAt = 1000,
       priority = High, dueDate = Some 86400000\<rparr>]"

definition sampleStored :: "stored_task list" where
  "sampleStored =
     [\<lparr>stored_id = 1001, stored_text = str ''b'', stored_completed = True,
       stored_createdAt = str ''1970-01-01T00:00:01.000Z'', stored_priority = Low,
       stored_dueDate = None\<rparr>,
      \<lparr>stored_id = 1000, stored_text = str ''a'', stored_completed = False,
       stored_createdAt = str ''1970-01-01T00:00:01.000Z'', stored_priority = High,
       stored_dueDate = Some (str ''1970-01-02T00:00:00.000Z'')\<rparr>]"

definition sampleText :: jsstring where
  \<open>sampleText =
     (str ''[{"id":1001,"text":"b","completed":true,"createdAt":"1970-01-01T00:00:01.000Z","priority":"low","dueDate":null},{"id":1000,"text":"a","completed":false,"createdAt":"1970-01-01T00:00:01.000Z","priority":"high","dueDate":"1970-01-02T00:00:00.000Z"}]'')\<close>

definition sampleRuntime :: runtime where
  "sampleRuntime =
     \<lparr>JSON_stringify = (\<lambda>xs. if xs = sampleStored then sampleText else str ''[]''),
      JSON_parse = (\<lambda>s. if s = sampleText then Some sampleStored
                         else if s = str ''[]'' then Some [] else None),
      toISOString = (\<lambda>d. if d = 1000 then str ''1970-01-01T00:00:01.000Z''
                          else if d = 86400000 then str ''1970-01-02T00:00:00.000Z''
                          else str ''1970-01-01T00:00:00.000Z''),
      Date_parse = (\<lambda>s. if s = str ''1970-01-01T00:00:01.000Z'' then 1000
                         else if s = str ''1970-01-02T00:00:00.000Z'' then 86400000 else 0),
      toLowerCase = (\<lambda>s. if s = odos then odosLower
                          else if s = sigma then sigmaLower else map lowerLatin1 s)\<rparr>"

text \<open>A loaded store with the Greek word as its only task and the sigma as the query.\<close>

definition odosStore :: app where
  "odosStore = (storeOf [plainTask 1 odos False])\<lparr>searchQuery := sigma\<rparr>"

section \<open>Adding a task\<close>

lemma str_nonempty: "str (c # cs) \<noteq> []"
  by (simp add: str_def)

lemma trim_spaces_x: "trim (str ''  x  '') = str ''x''"
  by (simp add: trim_def str_def isWhiteSpace_def)

lemma trim_spaces: "trim (str ''   '') = []"
  by (simp add: trim_def str_def isWhiteSpace_def)

lemma trim_x: "trim (str ''x'') = str ''x''"
  by (simp add: trim_def str_def isWhiteSpace_def)

lemma str_x_differs: "str ''x'' \<noteq> str ''  x  ''"
  by (simp add: str_def)

lemma trim_empty: "trim [] = []"
  by (simp add: trim_def)

lemma addTask_rejects: "trim (newTask st) = [] \<Longrightarrow> addTask c st = st"
  by (simp add: addTask_def truthy_def)

lemma addTask_prepends:
  "trim (newTask st) \<noteq> [] \<Longrightarrow>
   tasks (addTask c st) =
     \<lparr>task_id = now_id c, task_text = newTask st, completed = False,
      createdAt = now_created c, priority = priority_input st,
      dueDate = (if now_due c < selectedDate st then Some (selectedDate st) else None)\<rparr>
     # tasks st"
  by (simp add: addTask_def truthy_def Let_def)

text \<open>
  C2. When the trimmed text is empty, adding changes nothing: \<^verbatim>\<open>addTask\<close> returns the
  state it was given, and the task list after \<open>add\<close> is the list before. Otherwise the
  task list after \<open>add\<close> is the list before with one new task at index 0: the given text,
  not completed, the given priority, \<open>createdAt\<close> the clock reading taken for it, and
  \<open>dueDate\<close> the selected date when it is strictly later than the clock reading taken for
  the comparison, \<open>None\<close> otherwise. The old tasks follow it, unchanged and in their
  order. The last part says the same of \<^verbatim>\<open>addTask\<close> on the text, priority and date held
  in the state.
\<close>

theorem add_spec:
  "(trim inputText = [] \<longrightarrow> tasks (add inputText p d c st) = tasks st) \<and>
   (trim (newTask st) = [] \<longrightarrow> addTask c st = st) \<and>
   (trim inputText \<noteq> [] \<longrightarrow>
      tasks (add inputText p d c st) =
        \<lparr>task_id = now_id c, task_text = inputText, completed = False,
         createdAt = now_created c, priority = p,
         dueDate = (if now_due c < d then Some d else None)\<rparr> # tasks st) \<and>
   (trim (newTask st) \<noteq> [] \<longrightarrow>
      tasks (addTask c st) =
        \<lparr>task_id = now_id c, task_text = newTask st, completed = False,
         createdAt = now_created c, priority = priority_input st,
         dueDate = (if now_due c < selectedDate st then Some (selectedDate st) else None)\<rparr>
        # tasks st)"
  by (simp add: add_def addTask_rejects addTask_prepends)

theorem add_spec_witness:
  "trim (str ''   '') = [] \<and>
   tasks (add (str ''   '') High 5000 (clockAt 1000) (storeOf [plainTask 1 (str ''a'') False]))
     = [plainTask 1 (str ''a'') False] \<and>
   trim (newTask (storeOf [])) = [] \<and> addTask (clockAt 1000) (storeOf []) = storeOf [] \<and>
   trim (str ''x'') \<noteq> [] \<and>
   tasks (add (str ''x'') High 5000 (clockAt 1000) (storeOf [plainTask 1 (str ''a'') False]))
     = [\<lparr>task_id = 1000, task_text = str ''x'', completed = False, createdAt = 1000,
         priority = High, dueDate = Some 5000\<rparr>, plainTask 1 (str ''a'') False] \<and>
   tasks (add (str ''x'') Low 1000 (clockAt 1000) (storeOf []))
     = [\<lparr>task_id = 1000, task_text = str ''x'', completed = False, createdAt = 1000,
         priority = Low, dueDate = None\<rparr>] \<and>
   trim (newTask ((storeOf [])\<lparr>newTask := str ''x''\<rparr>)) \<noteq> [] \<and>
   tasks (addTask (clockAt 1000) ((storeOf [])\<lparr>newTask := str ''x''\<rparr>))
     = [\<lparr>task_id = 1000, task_text = str ''x'', completed = False, createdAt = 1000,
         priority = Medium, dueDate = None\<rparr>]"
  using add_spec [of "(str ''   '')" High 5000 "clockAt 1000" "storeOf [plainTask 1 (str ''a'') False]"]
    add_spec [of "(str ''x'')" High 5000 "clockAt 1000" "storeOf [plainTask 1 (str ''a'') False]"]
    add_spec [of "(str ''x'')" Low 1000 "clockAt 1000" "storeOf []"]
    add_spec [of "(str ''x'')" Low 1000 "clockAt 1000" "(storeOf [])\<lparr>newTask := str ''x''\<rparr>"]
  by (simp add: trim_spaces trim_x trim_empty str_nonempty clockAt_def storeOf_def mount_def)

text \<open>
  C10. An accepted text is stored as it was given, with its leading and trailing white
  space: the emptiness test looks at the trimmed text, the new task holds the text itself.
\<close>

theorem add_keeps_text:
  "(trim inputText \<noteq> [] \<longrightarrow> task_text (hd (tasks (add inputText p d c st))) = inputText) \<and>
   task_text (hd (tasks (add (str ''  x  '') p d c st))) = str ''  x  ''"
  by (simp add: add_def addTask_prepends trim_spaces_x str_nonempty)

theorem add_keeps_text_witness:
  "trim (str ''  x  '') \<noteq> [] \<and> trim (str ''  x  '') \<noteq> (str ''  x  '') \<and>
   task_text (hd (tasks (add (str ''  x  '') Medium 0 (clockAt 1000) (storeOf [])))) = str ''  x  ''"
  using add_keeps_text [of "(str ''  x  '')" Medium 0 "clockAt 1000" "storeOf []"]
  by (simp add: trim_spaces_x str_nonempty str_x_differs)


section \<open>Editing a task\<close>

text \<open>
  C5. When the trimmed new text is not empty, editing replaces the text of every task
  with the given id by the new text and leaves the rest of the state as it was; when it
  is empty, editing returns the state it was given. The test is the one of \<^verbatim>\<open>saveEdit\<close>,
  which calls \<^verbatim>\<open>editTask\<close> only with a text that passed it.
\<close>

theorem edit_spec:
  "(trim newText \<noteq> [] \<longrightarrow>
      edit taskId newText st =
        st\<lparr>tasks := map (\<lambda>t. if task_id t = taskId then t\<lparr>task_text := newText\<rparr> else t)
                         (tasks st)\<rparr>) \<and>
   (trim newText = [] \<longrightarrow> edit taskId newText st = st) \<and>
   saveEdit (Some (editTask taskId)) (item, st) =
     (if trim (editedText item) = [] then (item, st)
      else (item\<lparr>isEditing := False\<rparr>, editTask taskId (editedText item) st))"
  by (simp add: edit_def saveEdit_def editTask_def truthy_def)

theorem edit_spec_witness:
  "trim (str ''x'') \<noteq> [] \<and>
   tasks (edit 1 (str ''x'') (storeOf [plainTask 1 (str ''a'') False, plainTask 2 (str ''b'') True]))
     = [plainTask 1 (str ''x'') False, plainTask 2 (str ''b'') True] \<and>
   trim (str ''   '') = [] \<and>
   edit 1 (str ''   '') (storeOf [plainTask 1 (str ''a'') False, plainTask 2 (str ''b'') True])
     = storeOf [plainTask 1 (str ''a'') False, plainTask 2 (str ''b'') True]"
  using edit_spec [of "(str ''x'')" 1 "storeOf [plainTask 1 (str ''a'') False, plainTask 2 (str ''b'') True]"
      "\<lparr>isEditing = True, editedText = str ''x''\<rparr>"]
    edit_spec [of "(str ''   '')" 1 "storeOf [plainTask 1 (str ''a'') False, plainTask 2 (str ''b'') True]"
      "\<lparr>isEditing = True, editedText = str ''   ''\<rparr>"]
  by (simp add: trim_x trim_spaces str_nonempty storeOf_def plainTask_def)

section \<open>What the updates leave alone\<close>

lemma updated_only_map:
  "updated_only i upd ts (map (\<lambda>t. if task_id t = i then upd t else t) ts) \<longleftrightarrow>
   (\<forall>t \<in> set ts. task_id t = i \<longrightarrow> task_id (upd t) = i)"
  by (auto simp: updated_only_def map_eq_conv)

text \<open>
  C9. \<^verbatim>\<open>toggleTask\<close>, \<^verbatim>\<open>editTask\<close>, \<^verbatim>\<open>updateTaskPriority\<close> and \<^verbatim>\<open>updateTaskDueDate\<close>
  keep the length of the task list and the id at every position; a task whose id is not
  the given one is the same task afterwards, and a task whose id is the given one differs
  from what it was in the one field the operation writes (\<open>completed\<close>, \<open>task_text\<close>,
  \<open>priority\<close>, \<open>dueDate\<close>) and in no other.
\<close>

theorem updates_frame:
  "updated_only i (\<lambda>t. t\<lparr>completed := \<not> completed t\<rparr>) (tasks st) (tasks (toggleTask i st)) \<and>
   updated_only i (\<lambda>t. t\<lparr>task_text := newText\<rparr>) (tasks st) (tasks (editTask i newText st)) \<and>
   updated_only i (\<lambda>t. t\<lparr>priority := newPriority\<rparr>) (tasks st)
     (tasks (updateTaskPriority i newPriority st)) \<and>
   updated_only i (\<lambda>t. t\<lparr>dueDate := Some newDate\<rparr>) (tasks st)
     (tasks (updateTaskDueDate i newDate st))"
  by (simp add: toggleTask_def editTask_def updateTaskPriority_def updateTaskDueDate_def
      Let_def updated_only_map)

theorem updates_frame_witness:
  "tasks (toggleTask 1 (storeOf [plainTask 1 (str ''a'') False, plainTask 2 (str ''b'') False]))
     = [plainTask 1 (str ''a'') True, plainTask 2 (str ''b'') False] \<and>
   tasks (editTask 1 (str ''x'') (storeOf [plainTask 1 (str ''a'') False, plainTask 2 (str ''b'') False]))
     = [plainTask 1 (str ''x'') False, plainTask 2 (str ''b'') False] \<and>
   tasks (updateTaskPriority 1 High (storeOf [plainTask 1 (str ''a'') False, plainTask 2 (str ''b'') False]))
     = [(plainTask 1 (str ''a'') False)\<lparr>priority := High\<rparr>, plainTask 2 (str ''b'') False] \<and>
   tasks (updateTaskDueDate 1 5000 (storeOf [plainTask 1 (str ''a'') False, plainTask 2 (str ''b'') False]))
     = [(plainTask 1 (str ''a'') False)\<lparr>dueDate := Some 5000\<rparr>, plainTask 2 (str ''b'') False]"
proof -
  let ?ts = "[plainTask 1 (str ''a'') False, plainTask 2 (str ''b'') False]"
  have len: "length (tasks (storeOf ?ts)) = 2"
    and t0: "tasks (storeOf ?ts) ! 0 = plainTask 1 (str ''a'') False"
    and t1: "tasks (storeOf ?ts) ! 1 = plainTask 2 (str ''b'') False"
    by (simp_all add: storeOf_def)
  have two: "us = [us ! 0, us ! 1]" if "length us = 2" for us :: "task list"
    using that by (cases us; cases "tl us") auto 
  have *: "us = [upd (plainTask 1 (str ''a'') False), plainTask 2 (str ''b'') False]"
    if "updated_only 1 upd (tasks (storeOf ?ts)) us" for upd us
  proof -
    from that have l: "length us = 2" by (simp add: updated_only_def len)
    from that have "us ! 0 = upd (plainTask 1 (str ''a'') False)" "us ! 1 = plainTask 2 (str ''b'') False"
      unfolding updated_only_def len using t0 t1 by (auto simp: plainTask_def)
    with two [OF l] show ?thesis by simp
  qed
  note f = updates_frame [of 1 "storeOf ?ts" "(str ''x'')" High 5000]
  from f have "tasks (toggleTask 1 (storeOf ?ts))
      = [(plainTask 1 (str ''a'') False)\<lparr>completed := \<not> completed (plainTask 1 (str ''a'') False)\<rparr>,
         plainTask 2 (str ''b'') False]"
    by (intro *) simp
  moreover from f have "tasks (editTask 1 (str ''x'') (storeOf ?ts))
      = [(plainTask 1 (str ''a'') False)\<lparr>task_text := str ''x''\<rparr>, plainTask 2 (str ''b'') False]"
    by (intro *) simp
  moreover from f have "tasks (updateTaskPriority 1 High (storeOf ?ts))
      = [(plainTask 1 (str ''a'') False)\<lparr>priority := High\<rparr>, plainTask 2 (str ''b'') False]"
    by (intro *) simp
  moreover from f have "tasks (updateTaskDueDate 1 5000 (storeOf ?ts))
      = [(plainTask 1 (str ''a'') False)\<lparr>dueDate := Some 5000\<rparr>, plainTask 2 (str ''b'') False]"
    by (intro *) simp
  ultimately show ?thesis by (simp add: plainTask_def)
qed


section \<open>Reordering\<close>

lemma remove_at_take_drop: "remove_at n xs = take n xs @ drop (Suc n) xs"
  by (induction n xs rule: remove_at.induct) simp_all

lemma insert_at_take_drop: "insert_at n y xs = take n xs @ y # drop n xs"
  by (induction n y xs rule: insert_at.induct) simp_all

lemma splice_remove_one:
  assumes "0 \<le> i" "i < int (length xs)"
  shows "splice i 1 [] xs = ([xs ! nat i], remove_at (nat i) xs)"
proof -
  let ?k = "nat i"
  from assms have k: "?k < length xs" by simp
  then have "take 1 (drop ?k xs) = [xs ! ?k]"
    by (simp add: take_Suc_conv_app_nth hd_drop_conv_nth take_Suc)
  moreover have "min ?k (length xs) = ?k" "min (Suc 0) (length xs - ?k) = Suc 0"
    using k by simp_all
  ultimately show ?thesis
    using assms by (simp add: splice_def Let_def remove_at_take_drop)
qed

lemma splice_insert_one:
  assumes "0 \<le> j" "j \<le> int (length xs)"
  shows "snd (splice j 0 [y] xs) = insert_at (nat j) y xs"
proof -
  from assms have "nat j \<le> length xs" by linarith
  then show ?thesis
    using assms by (simp add: splice_def Let_def insert_at_take_drop min_def)
qed

lemma length_remove_at: "n < length xs \<Longrightarrow> length (remove_at n xs) = length xs - 1"
  by (simp add: remove_at_take_drop)

lemma remove_at_insert_at: "n \<le> length xs \<Longrightarrow> remove_at n (insert_at n y xs) = xs"
  by (simp add: remove_at_take_drop insert_at_take_drop)

lemma nth_insert_at: "n \<le> length xs \<Longrightarrow> insert_at n y xs ! n = y"
  by (simp add: insert_at_take_drop nth_append)

text \<open>
  C6. For indices within the task list, \<^verbatim>\<open>reorderTasks\<close> succeeds, and the new list is
  the old one with the element at \<open>fromIndex\<close> removed and then inserted at position
  \<open>toIndex\<close> of what remained: it has the old length, holds the moved task at \<open>toIndex\<close>,
  and without that position it is the old list without position \<open>fromIndex\<close>, so the
  other tasks keep their order. On \<open>[A, B, C, D]\<close>, moving 0 to 2 gives \<open>[B, C, A, D]\<close>.
\<close>

theorem reorder_spec:
  "(0 \<le> fromIndex \<and> fromIndex < int (length (tasks st)) \<and>
    0 \<le> toIndex \<and> toIndex < int (length (tasks st)) \<longrightarrow>
      (\<exists>us. reorderTasks fromIndex toIndex st = Inr (st\<lparr>tasks := us\<rparr>) \<and>
            us = insert_at (nat toIndex) (tasks st ! nat fromIndex)
                   (remove_at (nat fromIndex) (tasks st)) \<and>
            length us = length (tasks st) \<and>
            us ! nat toIndex = tasks st ! nat fromIndex \<and>
            remove_at (nat toIndex) us = remove_at (nat fromIndex) (tasks st))) \<and>
   (tasks st = [A, B, C, D] \<longrightarrow> reorderTasks 0 2 st = Inr (st\<lparr>tasks := [B, C, A, D]\<rparr>))"
proof (intro conjI impI)
  assume b: "0 \<le> fromIndex \<and> fromIndex < int (length (tasks st)) \<and>
    0 \<le> toIndex \<and> toIndex < int (length (tasks st))"
  let ?ts = "tasks st"
  let ?rest = "remove_at (nat fromIndex) ?ts"
  let ?us = "insert_at (nat toIndex) (?ts ! nat fromIndex) ?rest"
  from b have fr: "nat fromIndex < length ?ts" by linarith
  then have len: "length ?rest = length ?ts - 1"
    by (rule length_remove_at)
  with b have to: "nat toIndex \<le> length ?rest" by linarith
  then have to': "toIndex \<le> int (length ?rest)" using b by linarith
  have "reorderTasks fromIndex toIndex st = Inr (st\<lparr>tasks := ?us\<rparr>)"
    using b to' by (simp add: reorderTasks_def splice_remove_one splice_insert_one)
  moreover have "length ?us = length ?ts"
    using fr len to by (simp add: insert_at_take_drop)
  moreover have "?us ! nat toIndex = ?ts ! nat fromIndex"
    using to by (rule nth_insert_at)
  moreover have "remove_at (nat toIndex) ?us = ?rest"
    using to by (rule remove_at_insert_at)
  ultimately show "\<exists>us. reorderTasks fromIndex toIndex st = Inr (st\<lparr>tasks := us\<rparr>) \<and>
            us = ?us \<and> length us = length ?ts \<and> us ! nat toIndex = ?ts ! nat fromIndex \<and>
            remove_at (nat toIndex) us = ?rest"
    by blast
next
  assume "tasks st = [A, B, C, D]"
  then show "reorderTasks 0 2 st = Inr (st\<lparr>tasks := [B, C, A, D]\<rparr>)"
    by (simp add: reorderTasks_def splice_def Let_def)
qed

theorem reorder_spec_witness:
  "(0::int) \<le> 3 \<and> 3 < int (length (tasks (storeOf
      [plainTask 1 (str ''A'') False, plainTask 2 (str ''B'') False, plainTask 3 (str ''C'') False,
       plainTask 4 (str ''D'') False]))) \<and>
   (0::int) \<le> 1 \<and> 1 < int (length (tasks (storeOf
      [plainTask 1 (str ''A'') False, plainTask 2 (str ''B'') False, plainTask 3 (str ''C'') False,
       plainTask 4 (str ''D'') False]))) \<and>
   reorderTasks 3 1 (storeOf
      [plainTask 1 (str ''A'') False, plainTask 2 (str ''B'') False, plainTask 3 (str ''C'') False,
       plainTask 4 (str ''D'') False])
     = Inr (storeOf
      [plainTask 1 (str ''A'') False, plainTask 4 (str ''D'') False, plainTask 2 (str ''B'') False,
       plainTask 3 (str ''C'') False]) \<and>
   reorderTasks 0 2 (storeOf
      [plainTask 1 (str ''A'') False, plainTask 2 (str ''B'') False, plainTask 3 (str ''C'') False,
       plainTask 4 (str ''D'') False])
     = Inr (storeOf
      [plainTask 2 (str ''B'') False, plainTask 3 (str ''C'') False, plainTask 1 (str ''A'') False,
       plainTask 4 (str ''D'') False])"
proof -
  let ?st = "storeOf [plainTask 1 (str ''A'') False, plainTask 2 (str ''B'') False,
    plainTask 3 (str ''C'') False, plainTask 4 (str ''D'') False]"
  have ts: "tasks ?st = [plainTask 1 (str ''A'') False, plainTask 2 (str ''B'') False,
    plainTask 3 (str ''C'') False, plainTask 4 (str ''D'') False]"
    by (simp add: storeOf_def)
  have three: "nat 3 = Suc (Suc (Suc 0))" and one: "nat 1 = Suc 0" by simp_all
  from reorder_spec [of 3 ?st 1 "plainTask 1 (str ''A'') False" "plainTask 2 (str ''B'') False"
      "plainTask 3 (str ''C'') False" "plainTask 4 (str ''D'') False"]
  show ?thesis
    unfolding ts three one by (simp add: storeOf_def)
qed


section \<open>The filtered view\<close>

lemma startsWith_take: "startsWith s q \<longleftrightarrow> length q \<le> length s \<and> take (length q) s = q"
  by (induction s q rule: startsWith.induct) auto

lemma includes_string_pos:
  "includes_string s q \<longleftrightarrow> (\<exists>i \<le> length s. startsWith (drop i s) q)"
proof (induction s)
  case Nil
  show ?case by (cases q) simp_all
next
  case (Cons a s)
  have "(\<exists>i \<le> length (a # s). startsWith (drop i (a # s)) q) \<longleftrightarrow>
        startsWith (a # s) q \<or> (\<exists>i \<le> length s. startsWith (drop i s) q)"
  proof
    assume "\<exists>i \<le> length (a # s). startsWith (drop i (a # s)) q"
    then obtain i where i: "i \<le> length (a # s)" "startsWith (drop i (a # s)) q" by blast
    show "startsWith (a # s) q \<or> (\<exists>i \<le> length s. startsWith (drop i s) q)"
    proof (cases i)
      case 0
      with i show ?thesis by simp
    next
      case (Suc j)
      with i have "j \<le> length s" "startsWith (drop j s) q" by simp_all
      then show ?thesis by blast
    qed
  next
    assume "startsWith (a # s) q \<or> (\<exists>i \<le> length s. startsWith (drop i s) q)"
    then show "\<exists>i \<le> length (a # s). startsWith (drop i (a # s)) q"
    proof
      assume "startsWith (a # s) q"
      then have "startsWith (drop 0 (a # s)) q" by simp
      then show ?thesis by blast
    next
      assume "\<exists>i \<le> length s. startsWith (drop i s) q"
      then obtain i where "i \<le> length s" "startsWith (drop i s) q" by blast
      then have "Suc i \<le> length (a # s)" "startsWith (drop (Suc i) (a # s)) q" by simp_all
      then show ?thesis by blast
    qed
  qed
  with Cons show ?case by simp
qed

lemma includes_contains: "includes_string s q \<longleftrightarrow> contains s q"
proof -
  let ?P = "\<lambda>i. take (length q) (drop i s) = q"
  have "includes_string s q \<longleftrightarrow> (\<exists>i \<le> length s. length q \<le> length s - i \<and> ?P i)"
    by (simp add: includes_string_pos startsWith_take)
  also have "\<dots> \<longleftrightarrow> (\<exists>i \<in> {0 .. length s}. i + length q \<le> length s \<and> ?P i)"
  proof
    assume "\<exists>i \<le> length s. length q \<le> length s - i \<and> ?P i"
    then obtain i where "i \<le> length s" "length q \<le> length s - i" "?P i" by blast
    then have "i \<in> {0 .. length s}" "i + length q \<le> length s" "?P i" by simp_all
    then show "\<exists>i \<in> {0 .. length s}. i + length q \<le> length s \<and> ?P i" by blast
  next
    assume "\<exists>i \<in> {0 .. length s}. i + length q \<le> length s \<and> ?P i"
    then obtain i where "i \<in> {0 .. length s}" "i + length q \<le> length s" "?P i" by blast
    then have "i \<le> length s" "length q \<le> length s - i" "?P i" by simp_all
    then show "\<exists>i \<le> length s. length q \<le> length s - i \<and> ?P i" by blast
  qed
  finally show ?thesis by (simp add: contains_def)
qed

lemma contains_map: "contains (map f s) (map f q) \<longleftrightarrow> contains_ignoring_case f s q"
  by (simp add: contains_def contains_ignoring_case_def take_map drop_map)

lemma filteredTasks_all:
  "activeFilter st = FilterAll \<Longrightarrow> searchQuery st \<noteq> [] \<Longrightarrow>
   filteredTasks rt st =
     filter (\<lambda>t. contains (toLowerCase rt (task_text t)) (toLowerCase rt (searchQuery st)))
       (tasks st)"
  by (simp add: filteredTasks_def truthy_def includes_contains)

lemma lower_odos: "toLowerCase sampleRuntime odos = odosLower"
  by (simp add: sampleRuntime_def)

lemma lower_sigma: "toLowerCase sampleRuntime sigma = sigmaLower"
  by (simp add: sampleRuntime_def odos_def sigma_def)

text \<open>
  C4, as stated, fails for the filter \<open>all\<close>: the view compares the lower-case forms of
  the text and of the query, and the lower-case form of a text is not the text letter by
  letter. The only task of the store is the Greek word in capitals and the query is the
  capital sigma, which the text contains as it stands. At the end of the word the sigma
  becomes the final sigma U+03C2, alone it becomes U+03C3, and the view is empty.
\<close>

theorem filtered_counterexample:
  "tasks odosStore = [plainTask 1 odos False] \<and> activeFilter odosStore = FilterAll \<and>
   searchQuery odosStore = sigma \<and> sigma \<noteq> [] \<and>
   includes_string (task_text (plainTask 1 odos False)) sigma \<and>
   toLowerCase sampleRuntime odos = odosLower \<and>
   toLowerCase sampleRuntime sigma = sigmaLower \<and>
   filteredTasks sampleRuntime odosStore = []"
  by (simp add: lower_odos lower_sigma)
     (simp add: odosStore_def storeOf_def mount_def plainTask_def filteredTasks_def truthy_def
        lower_odos lower_sigma, simp add: odos_def sigma_def odosLower_def sigmaLower_def)

text \<open>
  C4, amended. With the filter \<open>active\<close> the view is the tasks that are not completed,
  with the filter \<open>completed\<close> the tasks that are, in the order of the store and whatever
  the query is. With the filter \<open>all\<close> and an empty query it is every task. With the
  filter \<open>all\<close> and a query that is not empty, it is the tasks whose text in lower case
  (\<^verbatim>\<open>toLowerCase\<close>) contains the query in lower case as a substring; where
  \<^verbatim>\<open>toLowerCase\<close> lower-cases the query and the texts of the store character by
  character, as it does on text of U+0000 .. U+00FF, these are the tasks whose text
  contains the query when letter case is ignored.
\<close>

theorem filtered_spec:
  "(activeFilter st = FilterActive \<longrightarrow>
      filteredTasks rt st = filter (\<lambda>t. \<not> completed t) (tasks st)) \<and>
   (activeFilter st = FilterCompleted \<longrightarrow>
      filteredTasks rt st = filter completed (tasks st)) \<and>
   (activeFilter st = FilterAll \<and> searchQuery st = [] \<longrightarrow> filteredTasks rt st = tasks st) \<and>
   (activeFilter st = FilterAll \<and> searchQuery st \<noteq> [] \<longrightarrow>
      filteredTasks rt st =
        filter (\<lambda>t. contains (toLowerCase rt (task_text t)) (toLowerCase rt (searchQuery st)))
          (tasks st)) \<and>
   (activeFilter st = FilterAll \<and> searchQuery st \<noteq> [] \<and>
    toLowerCase rt (searchQuery st) = map f (searchQuery st) \<and>
    (\<forall>t \<in> set (tasks st). toLowerCase rt (task_text t) = map f (task_text t)) \<longrightarrow>
      filteredTasks rt st =
        filter (\<lambda>t. contains_ignoring_case f (task_text t) (searchQuery st)) (tasks st))"
proof (intro conjI impI)
  show "filteredTasks rt st = filter (\<lambda>t. \<not> completed t) (tasks st)"
    if "activeFilter st = FilterActive"
    using that by (simp add: filteredTasks_def)
  show "filteredTasks rt st = filter completed (tasks st)"
    if "activeFilter st = FilterCompleted"
    using that by (simp add: filteredTasks_def)
  show "filteredTasks rt st = tasks st"
    if "activeFilter st = FilterAll \<and> searchQuery st = []"
    using that by (simp add: filteredTasks_def truthy_def)
  show "filteredTasks rt st =
        filter (\<lambda>t. contains (toLowerCase rt (task_text t)) (toLowerCase rt (searchQuery st)))
          (tasks st)"
    if "activeFilter st = FilterAll \<and> searchQuery st \<noteq> []"
    using that by (simp add: filteredTasks_all)
  show "filteredTasks rt st =
        filter (\<lambda>t. contains_ignoring_case f (task_text t) (searchQuery st)) (tasks st)"
    if h: "activeFilter st = FilterAll \<and> searchQuery st \<noteq> [] \<and>
      toLowerCase rt (searchQuery st) = map f (searchQuery st) \<and>
      (\<forall>t \<in> set (tasks st). toLowerCase rt (task_text t) = map f (task_text t))"
  proof -
    from h have "filteredTasks rt st =
        filter (\<lambda>t. contains (toLowerCase rt (task_text t)) (map f (searchQuery st))) (tasks st)"
      by (simp add: filteredTasks_all)
    also have "\<dots> = filter (\<lambda>t. contains_ignoring_case f (task_text t) (searchQuery st)) (tasks st)"
      using h by (intro filter_cong refl) (simp add: contains_map)
    finally show ?thesis .
  qed
qed

lemma lower_MILK: "toLowerCase sampleRuntime (str ''MILK'') = str ''milk''"
  by (simp add: sampleRuntime_def str_def odos_def sigma_def lowerLatin1_def)

lemma lower_Buy_Milk: "toLowerCase sampleRuntime (str ''Buy Milk'') = str ''buy milk''"
  by (simp add: sampleRuntime_def str_def odos_def sigma_def lowerLatin1_def)

lemma lower_call_Bob: "toLowerCase sampleRuntime (str ''call Bob'') = str ''call bob''"
  by (simp add: sampleRuntime_def str_def odos_def sigma_def lowerLatin1_def)

lemma lower_by_unit:
  "toLowerCase sampleRuntime (str ''MILK'') = map lowerLatin1 (str ''MILK'') \<and>
   toLowerCase sampleRuntime (str ''Buy Milk'') = map lowerLatin1 (str ''Buy Milk'') \<and>
   toLowerCase sampleRuntime (str ''call Bob'') = map lowerLatin1 (str ''call Bob'')"
  by (simp add: sampleRuntime_def str_def odos_def sigma_def)

lemma milk_in_buy_milk:
  "includes_string (str ''buy milk'') (str ''milk'') \<and>
   \<not> includes_string (str ''call bob'') (str ''milk'')"
  by (simp add: str_def)

theorem filtered_spec_witness:
  "filter (\<lambda>t. \<not> completed t)
       [plainTask 1 (str ''Buy Milk'') False, plainTask 2 (str ''call Bob'') True]
     = filteredTasks sampleRuntime
         ((storeOf [plainTask 1 (str ''Buy Milk'') False, plainTask 2 (str ''call Bob'') True])
            \<lparr>activeFilter := FilterActive, searchQuery := str ''bob''\<rparr>) \<and>
   filteredTasks sampleRuntime
       ((storeOf [plainTask 1 (str ''Buy Milk'') False, plainTask 2 (str ''call Bob'') True])
          \<lparr>activeFilter := FilterActive, searchQuery := str ''bob''\<rparr>)
     = [plainTask 1 (str ''Buy Milk'') False] \<and>
   filteredTasks sampleRuntime
       ((storeOf [plainTask 1 (str ''Buy Milk'') False, plainTask 2 (str ''call Bob'') True])
          \<lparr>activeFilter := FilterCompleted, searchQuery := str ''MILK''\<rparr>)
     = [plainTask 2 (str ''call Bob'') True] \<and>
   filteredTasks sampleRuntime
       (storeOf [plainTask 1 (str ''Buy Milk'') False, plainTask 2 (str ''call Bob'') True])
     = [plainTask 1 (str ''Buy Milk'') False, plainTask 2 (str ''call Bob'') True] \<and>
   filter (\<lambda>t. contains (toLowerCase sampleRuntime (task_text t))
                  (toLowerCase sampleRuntime (str ''MILK'')))
       [plainTask 1 (str ''Buy Milk'') False, plainTask 2 (str ''call Bob'') True]
     = [plainTask 1 (str ''Buy Milk'') False] \<and>
   toLowerCase sampleRuntime (str ''MILK'') = map lowerLatin1 (str ''MILK'') \<and>
   toLowerCase sampleRuntime (str ''Buy Milk'') = map lowerLatin1 (str ''Buy Milk'') \<and>
   toLowerCase sampleRuntime (str ''call Bob'') = map lowerLatin1 (str ''call Bob'') \<and>
   filter (\<lambda>t. contains_ignoring_case lowerLatin1 (task_text t) (str ''MILK''))
       [plainTask 1 (str ''Buy Milk'') False, plainTask 2 (str ''call Bob'') True]
     = [plainTask 1 (str ''Buy Milk'') False]"
proof -
  let ?ts = "[plainTask 1 (str ''Buy Milk'') False, plainTask 2 (str ''call Bob'') True]"
  let ?q = "(storeOf ?ts)\<lparr>searchQuery := str ''MILK''\<rparr>"
  let ?a = "(storeOf ?ts)\<lparr>activeFilter := FilterActive, searchQuery := str ''bob''\<rparr>"
  let ?c = "(storeOf ?ts)\<lparr>activeFilter := FilterCompleted, searchQuery := str ''MILK''\<rparr>"
  have ne: "str ''MILK'' \<noteq> []" by (simp add: str_def)
  have ev: "filteredTasks sampleRuntime ?q = [plainTask 1 (str ''Buy Milk'') False]"
    by (simp add: filteredTasks_def storeOf_def mount_def plainTask_def truthy_def ne
        lower_MILK lower_Buy_Milk lower_call_Bob milk_in_buy_milk)
  have st: "tasks ?q = ?ts" "activeFilter ?q = FilterAll" "searchQuery ?q = str ''MILK''"
    "tasks ?a = ?ts" "activeFilter ?a = FilterActive"
    "tasks ?c = ?ts" "activeFilter ?c = FilterCompleted"
    "tasks (storeOf ?ts) = ?ts" "activeFilter (storeOf ?ts) = FilterAll"
    "searchQuery (storeOf ?ts) = []"
    by (simp_all add: storeOf_def mount_def)
  have unit: "\<forall>t \<in> set ?ts. toLowerCase sampleRuntime (task_text t) = map lowerLatin1 (task_text t)"
    by (simp add: plainTask_def lower_by_unit)
  have uq: "toLowerCase sampleRuntime (searchQuery ?q) = map lowerLatin1 (searchQuery ?q)"
    unfolding st using lower_by_unit by blast
  have un: "\<forall>t \<in> set (tasks ?q).
      toLowerCase sampleRuntime (task_text t) = map lowerLatin1 (task_text t)"
    unfolding st by (rule unit)
  have nq: "searchQuery ?q \<noteq> []" unfolding st by (rule ne)
  note q = filtered_spec [of ?q sampleRuntime lowerLatin1]
  note a = filtered_spec [of ?a sampleRuntime lowerLatin1]
  note c = filtered_spec [of ?c sampleRuntime lowerLatin1]
  note e = filtered_spec [of "storeOf ?ts" sampleRuntime lowerLatin1]
  from q st(2) nq have "filteredTasks sampleRuntime ?q =
      filter (\<lambda>t. contains (toLowerCase sampleRuntime (task_text t))
                     (toLowerCase sampleRuntime (searchQuery ?q))) (tasks ?q)"
    by blast
  then have 1: "filter (\<lambda>t. contains (toLowerCase sampleRuntime (task_text t))
                     (toLowerCase sampleRuntime (str ''MILK''))) ?ts
      = [plainTask 1 (str ''Buy Milk'') False]"
    unfolding st ev by (rule sym)
  from q st(2) nq uq un have "filteredTasks sampleRuntime ?q =
      filter (\<lambda>t. contains_ignoring_case lowerLatin1 (task_text t) (searchQuery ?q)) (tasks ?q)"
    by blast
  then have 2: "filter (\<lambda>t. contains_ignoring_case lowerLatin1 (task_text t) (str ''MILK'')) ?ts
      = [plainTask 1 (str ''Buy Milk'') False]"
    unfolding st ev by (rule sym)
  from a st(5) have "filteredTasks sampleRuntime ?a = filter (\<lambda>t. \<not> completed t) (tasks ?a)"
    by blast
  then have 3: "filteredTasks sampleRuntime ?a = filter (\<lambda>t. \<not> completed t) ?ts"
    unfolding st .
  then have 4: "filteredTasks sampleRuntime ?a = [plainTask 1 (str ''Buy Milk'') False]"
    by (simp add: plainTask_def)
  from c st(7) have "filteredTasks sampleRuntime ?c = filter completed (tasks ?c)"
    by blast
  then have "filteredTasks sampleRuntime ?c = filter completed ?ts"
    unfolding st .
  then have 5: "filteredTasks sampleRuntime ?c = [plainTask 2 (str ''call Bob'') True]"
    by (simp add: plainTask_def)
  from e st(9,10) have "filteredTasks sampleRuntime (storeOf ?ts) = tasks (storeOf ?ts)"
    by blast
  then have 6: "filteredTasks sampleRuntime (storeOf ?ts) = ?ts"
    unfolding st .
  from 1 2 3 [symmetric] 4 5 6 lower_by_unit show ?thesis by blast
qed

section \<open>The celebration\<close>

lemma toggle_tasks:
  "tasks (toggleTask i st) =
     map (\<lambda>t. if task_id t = i then t\<lparr>completed := \<not> completed t\<rparr> else t) (tasks st)"
  by (simp add: toggleTask_def Let_def)

lemma toggle_timeouts:
  "confettiTimeouts (toggleTask i st) =
     (if allCompleted (toggleTask i st) then Suc (confettiTimeouts st) else confettiTimeouts st)"
  by (simp add: toggleTask_def Let_def allCompleted_def)

lemma celebrated_iff: "celebrated st (toggleTask i st) \<longleftrightarrow> allCompleted (toggleTask i st)"
  by (simp add: celebrated_def toggle_timeouts)

lemma toggle_absent: "i \<notin> task_id ` set (tasks st) \<Longrightarrow> tasks (toggleTask i st) = tasks st"
  unfolding toggle_tasks by (rule map_idI) auto

lemma toggle_present_all:
  assumes "i \<in> task_id ` set (tasks st)" "allCompleted (toggleTask i st)"
  shows "\<not> allCompleted st"
proof
  assume a: "allCompleted st"
  from assms(1) obtain t where t: "t \<in> set (tasks st)" "task_id t = i" by blast
  with a have "completed t" by (simp add: allCompleted_def list_all_iff)
  moreover from t have "t\<lparr>completed := \<not> completed t\<rparr> \<in> set (tasks (toggleTask i st))"
    by (force simp: toggle_tasks)
  with assms(2) have "\<not> completed t" by (auto simp: allCompleted_def list_all_iff)
  ultimately show False by simp
qed

text \<open>
  C3, as stated, fails: in a store whose only task (id 1) is completed, toggling the id
  2, which no task has, starts a celebration, although no task changed and the store was
  not taken from "not all completed" to "all completed".
\<close>

theorem celebration_counterexample:
  "2 \<notin> task_id ` set (tasks (storeOf [plainTask 1 (str ''a'') True])) \<and>
   celebrated (storeOf [plainTask 1 (str ''a'') True]) (toggleTask 2 (storeOf [plainTask 1 (str ''a'') True])) \<and>
   \<not> (\<not> allCompleted (storeOf [plainTask 1 (str ''a'') True]) \<and>
      allCompleted (toggleTask 2 (storeOf [plainTask 1 (str ''a'') True])))"
  by (simp add: storeOf_def plainTask_def mount_def toggleTask_def celebrated_def
      allCompleted_def Let_def)

text \<open>
  C3, amended. A toggle starts a celebration exactly when every task is completed after
  it, and then it starts one; otherwise it starts none. When the toggled id is the id of
  a task, this is exactly the passage from a store in which not every task is completed
  to one in which every task is. No celebration starts while a task with another id is
  not completed. When no task has the toggled id, the task list stays as it was and a
  celebration starts exactly when every task was completed already (as in the empty
  store).
\<close>

theorem celebration_spec:
  "(celebrated st (toggleTask i st) \<longleftrightarrow> allCompleted (toggleTask i st)) \<and>
   (\<not> celebrated st (toggleTask i st) \<longrightarrow>
      confettiTimeouts (toggleTask i st) = confettiTimeouts st) \<and>
   (i \<in> task_id ` set (tasks st) \<longrightarrow>
      (celebrated st (toggleTask i st) \<longleftrightarrow>
         \<not> allCompleted st \<and> allCompleted (toggleTask i st))) \<and>
   ((\<exists>t \<in> set (tasks st). task_id t \<noteq> i \<and> \<not> completed t) \<longrightarrow>
      \<not> celebrated st (toggleTask i st)) \<and>
   (i \<notin> task_id ` set (tasks st) \<longrightarrow>
      tasks (toggleTask i st) = tasks st \<and>
      (celebrated st (toggleTask i st) \<longleftrightarrow> allCompleted st))"
proof (intro conjI impI)
  show "celebrated st (toggleTask i st) \<longleftrightarrow> allCompleted (toggleTask i st)"
    by (rule celebrated_iff)
  show "confettiTimeouts (toggleTask i st) = confettiTimeouts st"
    if "\<not> celebrated st (toggleTask i st)"
    using that by (simp add: celebrated_iff toggle_timeouts)
  show "celebrated st (toggleTask i st) \<longleftrightarrow> \<not> allCompleted st \<and> allCompleted (toggleTask i st)"
    if "i \<in> task_id ` set (tasks st)"
    using that toggle_present_all by (auto simp: celebrated_iff)
  show "\<not> celebrated st (toggleTask i st)"
    if "\<exists>t \<in> set (tasks st). task_id t \<noteq> i \<and> \<not> completed t"
  proof -
    from that obtain t where t: "t \<in> set (tasks st)" "task_id t \<noteq> i" "\<not> completed t" by blast
    then have "t \<in> set (tasks (toggleTask i st))" by (force simp: toggle_tasks)
    with t(3) have "\<not> allCompleted (toggleTask i st)"
      by (auto simp: allCompleted_def list_all_iff)
    then show ?thesis by (simp add: celebrated_iff)
  qed
  show "tasks (toggleTask i st) = tasks st"
    if "i \<notin> task_id ` set (tasks st)"
    using that by (rule toggle_absent)
  show "celebrated st (toggleTask i st) \<longleftrightarrow> allCompleted st"
    if "i \<notin> task_id ` set (tasks st)"
    using that by (simp add: celebrated_iff allCompleted_def toggle_absent)
qed

theorem celebration_spec_witness:
  "1 \<in> task_id ` set (tasks (storeOf [plainTask 1 (str ''a'') False, plainTask 2 (str ''b'') True])) \<and>
   \<not> allCompleted (storeOf [plainTask 1 (str ''a'') False, plainTask 2 (str ''b'') True]) \<and>
   celebrated (storeOf [plainTask 1 (str ''a'') False, plainTask 2 (str ''b'') True])
     (toggleTask 1 (storeOf [plainTask 1 (str ''a'') False, plainTask 2 (str ''b'') True])) \<and>
   plainTask 2 (str ''b'') False \<in> set (tasks (storeOf [plainTask 1 (str ''a'') False, plainTask 2 (str ''b'') False])) \<and>
   \<not> celebrated (storeOf [plainTask 1 (str ''a'') False, plainTask 2 (str ''b'') False])
     (toggleTask 1 (storeOf [plainTask 1 (str ''a'') False, plainTask 2 (str ''b'') False])) \<and>
   confettiTimeouts (toggleTask 1 (storeOf [plainTask 1 (str ''a'') False, plainTask 2 (str ''b'') False]))
     = confettiTimeouts (storeOf [plainTask 1 (str ''a'') False, plainTask 2 (str ''b'') False]) \<and>
   3 \<notin> task_id ` set (tasks (storeOf [plainTask 1 (str ''a'') False, plainTask 2 (str ''b'') True])) \<and>
   \<not> celebrated (storeOf [plainTask 1 (str ''a'') False, plainTask 2 (str ''b'') True])
     (toggleTask 3 (storeOf [plainTask 1 (str ''a'') False, plainTask 2 (str ''b'') True]))"
proof -
  let ?s1 = "storeOf [plainTask 1 (str ''a'') False, plainTask 2 (str ''b'') True]"
  let ?s2 = "storeOf [plainTask 1 (str ''a'') False, plainTask 2 (str ''b'') False]"
  have in1: "1 \<in> task_id ` set (tasks ?s1)" and out1: "3 \<notin> task_id ` set (tasks ?s1)"
    and n1: "\<not> allCompleted ?s1"
    and a1: "allCompleted (toggleTask 1 ?s1)"
    and other: "\<exists>t \<in> set (tasks ?s2). task_id t \<noteq> 1 \<and> \<not> completed t"
    and mem: "plainTask 2 (str ''b'') False \<in> set (tasks ?s2)"
    by (simp_all add: storeOf_def toggle_tasks allCompleted_def plainTask_def)
  from celebration_spec [of ?s1 1] in1 n1 a1
  have "celebrated ?s1 (toggleTask 1 ?s1)" by blast
  moreover from celebration_spec [of ?s2 1] other
  have "\<not> celebrated ?s2 (toggleTask 1 ?s2)"
    and "confettiTimeouts (toggleTask 1 ?s2) = confettiTimeouts ?s2" by blast+
  moreover from celebration_spec [of ?s1 3] out1 n1
  have "\<not> celebrated ?s1 (toggleTask 3 ?s1)" by blast
  ultimately show ?thesis using in1 out1 n1 mem by blast
qed


section \<open>The ids of the tasks\<close>

lemma ids_add: "ids (add inputText p d c st) = ids_read (Add inputText p d c) @ ids st"
  by (simp add: ids_def add_def addTask_def Let_def)

lemma ids_remove: "ids (remove i st) = filter (\<lambda>j. j \<noteq> i) (ids st)"
  by (simp add: ids_def remove_def confirmDelete_def prepareDelete_def filter_map comp_def)

lemma run_snoc: "run (ops @ [x]) st = step (run ops st) x"
  by (simp add: run_def)

lemma ids_run:
  assumes "tasks st = []"
  shows "distinct (concat (map ids_read ops)) \<Longrightarrow>
         distinct (ids (run ops st)) \<and> set (ids (run ops st)) \<subseteq> set (concat (map ids_read ops))"
proof (induction ops rule: rev_induct)
  case Nil
  show ?case using assms by (simp add: run_def ids_def)
next
  case (snoc x ops)
  then have ih: "distinct (ids (run ops st))"
      "set (ids (run ops st)) \<subseteq> set (concat (map ids_read ops))"
    and d: "distinct (ids_read x)" "set (concat (map ids_read ops)) \<inter> set (ids_read x) = {}"
    by auto
  show ?case
  proof (cases x)
    case (Add inputText p d c)
    then have "ids (run (ops @ [x]) st) = ids_read x @ ids (run ops st)"
      by (simp add: run_snoc ids_add)
    with ih d show ?thesis by auto
  next
    case (Remove i)
    then have "ids (run (ops @ [x]) st) = filter (\<lambda>j. j \<noteq> i) (ids (run ops st))"
      by (simp add: run_snoc ids_remove)
    with ih show ?thesis by auto
  qed
qed

text \<open>
  C1, as stated, fails: the id of a new task is the reading of \<^verbatim>\<open>Date.now()\<close>, and
  nothing compares it with the ids in the store. Two adds that read the same millisecond,
  starting from the empty store, leave two tasks with the same id.
\<close>

theorem ids_counterexample:
  "\<not> distinct (ids (run [Add (str ''a'') Medium 0 (clockAt 1000), Add (str ''b'') Medium 0 (clockAt 1000)]
                     (mount 0 emptyBackend)))"
  by (simp add: ids_def run_def add_def addTask_def mount_def clockAt_def truthy_def trim_def
      str_def isWhiteSpace_def Let_def)

text \<open>
  C1, amended. Starting from the empty store, after any sequence of adds and removes in
  which the accepted adds read pairwise different values of \<^verbatim>\<open>Date.now()\<close>, the ids of
  the tasks are pairwise different. In one step: an accepted add to a store with pairwise
  different ids leaves the ids pairwise different exactly when its reading of
  \<^verbatim>\<open>Date.now()\<close> is not the id of a task in the store; a remove leaves them pairwise
  different.
\<close>

theorem ids_spec:
  "(tasks st = [] \<and> distinct (concat (map ids_read ops)) \<longrightarrow> distinct (ids (run ops st))) \<and>
   (distinct (ids st) \<and> trim inputText \<noteq> [] \<longrightarrow>
      (distinct (ids (add inputText p d c st)) \<longleftrightarrow> now_id c \<notin> set (ids st))) \<and>
   (distinct (ids st) \<longrightarrow> distinct (ids (remove i st)))"
proof (intro conjI impI)
  assume "tasks st = [] \<and> distinct (concat (map ids_read ops))"
  then show "distinct (ids (run ops st))"
    using ids_run [of st ops] by simp
next
  assume "distinct (ids st) \<and> trim inputText \<noteq> []"
  then show "distinct (ids (add inputText p d c st)) \<longleftrightarrow> now_id c \<notin> set (ids st)"
    by (simp add: ids_add truthy_def)
next
  assume "distinct (ids st)"
  then show "distinct (ids (remove i st))"
    by (simp add: ids_remove)
qed

theorem ids_spec_witness:
  "tasks (mount 0 emptyBackend) = [] \<and>
   concat (map ids_read [Add (str ''a'') Medium 0 (clockAt 1000), Add (str ''  '') Low 0 (clockAt 1000),
      Add (str ''b'') High 0 (clockAt 1001), Remove 1000, Add (str ''c'') Medium 0 (clockAt 1002)])
     = [1000, 1001, 1002] \<and>
   ids (run [Add (str ''a'') Medium 0 (clockAt 1000), Add (str ''  '') Low 0 (clockAt 1000),
      Add (str ''b'') High 0 (clockAt 1001), Remove 1000, Add (str ''c'') Medium 0 (clockAt 1002)]
      (mount 0 emptyBackend)) = [1002, 1001] \<and>
   distinct (ids (run [Add (str ''a'') Medium 0 (clockAt 1000), Add (str ''  '') Low 0 (clockAt 1000),
      Add (str ''b'') High 0 (clockAt 1001), Remove 1000, Add (str ''c'') Medium 0 (clockAt 1002)]
      (mount 0 emptyBackend))) \<and>
   distinct (ids (storeOf [plainTask 1 (str ''a'') False])) \<and> trim (str ''x'') \<noteq> [] \<and>
   now_id (clockAt 2) \<notin> set (ids (storeOf [plainTask 1 (str ''a'') False])) \<and>
   distinct (ids (add (str ''x'') Medium 0 (clockAt 2) (storeOf [plainTask 1 (str ''a'') False]))) \<and>
   distinct (ids (remove 1 (storeOf [plainTask 1 (str ''a'') False])))"
proof -
  let ?ops = "[Add (str ''a'') Medium 0 (clockAt 1000), Add (str ''  '') Low 0 (clockAt 1000),
      Add (str ''b'') High 0 (clockAt 1001), Remove 1000, Add (str ''c'') Medium 0 (clockAt 1002)]"
  let ?s = "storeOf [plainTask 1 (str ''a'') False]"
  have tr: "trim (str ''a'') = str ''a''" "trim (str ''b'') = str ''b''" "trim (str ''c'') = str ''c''" "trim (str ''  '') = []"
    by (simp_all add: trim_def str_def isWhiteSpace_def)
  have e: "tasks (mount 0 emptyBackend) = []" by (simp add: mount_def)
  have r: "concat (map ids_read ?ops) = [1000, 1001, 1002]"
    by (simp add: tr truthy_def clockAt_def str_nonempty)
  have v: "ids (run ?ops (mount 0 emptyBackend)) = [1002, 1001]"
    by (simp add: run_def ids_remove ids_add tr truthy_def clockAt_def str_nonempty)
      (simp add: ids_def e)
  have s: "distinct (ids ?s)" "now_id (clockAt 2) \<notin> set (ids ?s)"
    by (simp_all add: ids_def storeOf_def plainTask_def clockAt_def)
  have dr: "distinct (concat (map ids_read ?ops))" unfolding r by simp
  have tx: "trim (str ''x'') \<noteq> []" by (simp add: trim_x str_nonempty)
  note a = ids_spec [of "mount 0 emptyBackend" ?ops "(str ''x'')" Medium 0 "clockAt 2" 1]
  note b = ids_spec [of ?s ?ops "(str ''x'')" Medium 0 "clockAt 2" 1]
  from a e dr have "distinct (ids (run ?ops (mount 0 emptyBackend)))" by blast
  moreover from b s tx
  have "distinct (ids (add (str ''x'') Medium 0 (clockAt 2) ?s))" "distinct (ids (remove 1 ?s))"
    by blast+
  ultimately show ?thesis using e r v s tx by blast
qed


section \<open>Saving and loading\<close>

lemma withDates_toJSON: "datesRoundTrip rt t \<Longrightarrow> withDates rt (toJSON rt t) = t"
  by (cases "dueDate t") (simp_all add: datesRoundTrip_def withDates_def toJSON_def truthy_def)

lemma map_withDates_toJSON:
  "list_all (datesRoundTrip rt) ts \<Longrightarrow> map (withDates rt) (map (toJSON rt) ts) = ts"
  by (induction ts) (simp_all add: withDates_toJSON)

lemma storage_saveTasks:
  "\<not> isLoading st \<Longrightarrow> available (storage st) \<Longrightarrow>
   items (storage (saveTasks rt st)) (str ''@tasks'') = Some (JSON_stringify rt (map (toJSON rt) (tasks st)))
   \<and> available (storage (saveTasks rt st))"
  by (simp add: saveTasks_def setItem_def)

lemma tasks_loadData_Some:
  "available (storage st) \<Longrightarrow> items (storage st) (str ''@tasks'') = Some s \<Longrightarrow> s \<noteq> [] \<Longrightarrow>
   JSON_parse rt s = Some ps \<Longrightarrow> tasks (loadData rt st) = map (withDates rt) ps"
  by (simp add: loadData_def getItem_def truthy_def Let_def split: option.splits)




text \<open>
  C7. Let the runtime read back the dates of the tasks as it rendered them, render no
  date as the empty string, and read back the text it writes for the task list as the
  records it was given. Then turning the tasks into their persisted records and applying
  the conversion of \<^verbatim>\<open>loadData\<close> gives the tasks back, with \<open>createdAt\<close> and \<open>dueDate\<close>
  as dates again and a missing due date as \<open>None\<close>; and when the store is loaded and the
  backend performs its calls, saving the tasks, starting again and loading gives the same
  task list.
\<close>

theorem roundtrip_spec:
  assumes "list_all (datesRoundTrip rt) (tasks st)"
    and "JSON_stringify rt (map (toJSON rt) (tasks st)) \<noteq> []"
    and "JSON_parse rt (JSON_stringify rt (map (toJSON rt) (tasks st)))
           = Some (map (toJSON rt) (tasks st))"
  shows "map (withDates rt) (map (toJSON rt) (tasks st)) = tasks st \<and>
         (\<not> isLoading st \<and> available (storage st) \<longrightarrow>
            tasks (loadData rt (restart now (saveTasks rt st))) = tasks st)"
proof (intro conjI impI)
  show rt: "map (withDates rt) (map (toJSON rt) (tasks st)) = tasks st"
    using assms(1) by (rule map_withDates_toJSON)
  assume a: "\<not> isLoading st \<and> available (storage st)"
  let ?st = "restart now (saveTasks rt st)"
  from a have "items (storage ?st) (str ''@tasks'') = Some (JSON_stringify rt (map (toJSON rt) (tasks st)))"
    and "available (storage ?st)"
    using storage_saveTasks [of st rt] by (simp_all add: restart_def mount_def)
  then have "tasks (loadData rt ?st) = map (withDates rt) (map (toJSON rt) (tasks st))"
    using assms(2,3) by (simp add: tasks_loadData_Some)
  with rt show "tasks (loadData rt ?st) = tasks st" by simp
qed

lemma sample_toJSON: "map (toJSON sampleRuntime) sampleTasks = sampleStored"
  by (simp add: toJSON_def sampleRuntime_def sampleTasks_def sampleStored_def)

lemma sample_nonempty: "sampleText \<noteq> []"
  by (simp add: sampleText_def str_nonempty)

theorem roundtrip_spec_witness:
  "list_all (datesRoundTrip sampleRuntime) (tasks (storeOf sampleTasks)) \<and>
   JSON_stringify sampleRuntime (map (toJSON sampleRuntime) (tasks (storeOf sampleTasks))) = sampleText \<and>
   sampleText \<noteq> [] \<and>
   JSON_parse sampleRuntime sampleText = Some (map (toJSON sampleRuntime) (tasks (storeOf sampleTasks))) \<and>
   \<not> isLoading (storeOf sampleTasks) \<and> available (storage (storeOf sampleTasks)) \<and>
   map (withDates sampleRuntime) sampleStored = sampleTasks \<and>
   tasks (loadData sampleRuntime (restart 5 (saveTasks sampleRuntime (storeOf sampleTasks))))
     = sampleTasks"
proof -
  let ?st = "storeOf sampleTasks"
  have ts: "tasks ?st = sampleTasks" by (simp add: storeOf_def)
  have h1: "list_all (datesRoundTrip sampleRuntime) (tasks ?st)"
    unfolding ts by (simp add: datesRoundTrip_def sampleRuntime_def sampleTasks_def str_def)
  have h2: "JSON_stringify sampleRuntime (map (toJSON sampleRuntime) (tasks ?st)) = sampleText"
    unfolding ts sample_toJSON by (simp add: sampleRuntime_def)
  have h3: "JSON_parse sampleRuntime sampleText = Some (map (toJSON sampleRuntime) (tasks ?st))"
    unfolding ts sample_toJSON by (simp add: sampleRuntime_def)
  have h4: "\<not> isLoading ?st" "available (storage ?st)"
    by (simp_all add: storeOf_def mount_def emptyBackend_def)
  from h2 sample_nonempty
  have h2': "JSON_stringify sampleRuntime (map (toJSON sampleRuntime) (tasks ?st)) \<noteq> []"
    by simp
  from h2 h3
  have h3': "JSON_parse sampleRuntime (JSON_stringify sampleRuntime (map (toJSON sampleRuntime) (tasks ?st)))
           = Some (map (toJSON sampleRuntime) (tasks ?st))"
    by simp
  from roundtrip_spec [OF h1 h2' h3', of 5] h4
  have "map (withDates sampleRuntime) (map (toJSON sampleRuntime) (tasks ?st)) = tasks ?st"
    and "tasks (loadData sampleRuntime (restart 5 (saveTasks sampleRuntime ?st))) = tasks ?st"
    by blast+
  then have "map (withDates sampleRuntime) sampleStored = sampleTasks"
    and "tasks (loadData sampleRuntime (restart 5 (saveTasks sampleRuntime ?st))) = sampleTasks"
    unfolding ts sample_toJSON by simp_all
  with h1 h2 h3 h4 sample_nonempty show ?thesis by blast
qed


section \<open>Clearing the store\<close>












end
